theory Spec2Isabelle
  imports Main
begin

section \<open>Values, actions and the collaborators' answers\<close>

text \<open>
  The provisioner (\<^verbatim>\<open>lib/digital-ocean-provisioner.js\<close>) is written in continuation-passing
  style: every operation hands its outcome to a callback, \<^verbatim>\<open>cb(err)\<close> for a failure and
  \<^verbatim>\<open>cb(null, value)\<close> for a success.  The model keeps this shape.  A function of the source
  becomes a function from the answers its collaborators give (the cloud API client, the
  shell, the clock) to the list of actions it performs, in the order it performs them.
  The names are the source's; a leading underscore is dropped, since an Isabelle name
  starts with a letter (\<^verbatim>\<open>_provision\<close> is \<open>provision1\<close>, next to the batch operation
  \<open>provision\<close>).  Calls of \<^verbatim>\<open>_log\<close> are left out: nothing is read back from the log, with
  one exception that is modelled where it occurs.  The libraries that the source calls
  (async, moment, path, underscore, shelljs) are not part of the repository; what is
  used of them is modelled by their documented behaviour, and said so at each place.
\<close>

text \<open>
  JavaScript values found in the error position of a callback or thrown: \<open>Err e\<close> is an
  error that a collaborator (the API client, the port probe) reported, \<open>e\<close> standing for
  what it said; \<open>Str s\<close> is a string built by the provisioner; \<open>Arr vs\<close> is an array.  An
  answer of a collaborator is written \<open>Inl e\<close> for an error and \<open>Inr x\<close> for a result.
\<close>

datatype jsval = Err string | Str string | Arr "jsval list"

text \<open>An instance identifier as the API hands it out or a caller passes it: a number or a string.\<close>

datatype jsid = IdNum int | IdStr string

text \<open>The three places where \<^verbatim>\<open>shell.exec\<close> is called from: rsync, scp and ssh command lines.\<close>

datatype site = Rsync | Scp | Ssh

datatype effect =
    Exec site string
  | Timer nat
  | Get jsid
  | GetAll
  | Destroy "int option"
  | New string string string string bool string
  | EventGet jsid
  | PortWait nat string nat nat
  | Throw jsval

text \<open>
  \<open>Do e\<close> is a call into a collaborator; \<open>Cb (Inl v)\<close> is \<^verbatim>\<open>cb(v)\<close>, one argument in
  the error position; \<open>Cb (Inr r)\<close> is \<^verbatim>\<open>cb(null, r)\<close>.
\<close>

datatype 'r action = Do effect | Cb "jsval + 'r"

record droplet =
  droplet_id :: jsid
  ip_address :: string
  event_id :: jsid

text \<open>The fields of \<^verbatim>\<open>this._options\<close> that the operations below read.\<close>

record options =
  private_ssh_key :: string
  scripts_path :: string
  ssh_key_id :: string

subsection \<open>Numbers as text, the clock, paths\<close>

definition digit_char :: "nat \<Rightarrow> char" where
  "digit_char d = ''0123456789'' ! (d mod 10)"

fun show_nat :: "nat \<Rightarrow> string" where
  "show_nat n = (if n < 10 then [digit_char n] else show_nat (n div 10) @ [digit_char (n mod 10)])"

declare show_nat.simps [simp del]

text \<open>A JavaScript integer converted to a string, as \<^verbatim>\<open>'...' + code\<close> and \<^verbatim>\<open>%s\<close> do.\<close>

definition show_int :: "int \<Rightarrow> string" where
  "show_int i = (if i < 0 then CHR ''-'' # show_nat (nat (- i)) else show_nat (nat i))"

text \<open>
  \<^verbatim>\<open>moment().unix()\<close> of the moment library: the clock's reading, in milliseconds since
  the epoch, cut down to whole seconds.
\<close>

definition unix :: "nat \<Rightarrow> nat" where
  "unix ms = ms div 1000"

text \<open>
  \<^verbatim>\<open>path.sep\<close> and \<^verbatim>\<open>path.basename\<close> of Node's path module on a POSIX host: the part of
  the path after its last separator, trailing separators not counted.
\<close>

definition sep :: char where
  "sep = CHR ''/''"

definition basename :: "string \<Rightarrow> string" where
  "basename p =
     (let q = rev (dropWhile (\<lambda>c. c = sep) (rev p))
      in rev (takeWhile (\<lambda>c. c \<noteq> sep) (rev q)))"

section \<open>Copying a script and running it\<close>

definition getScriptPath :: "options \<Rightarrow> string \<Rightarrow> string" where
  "getScriptPath opts script =
     (if sep \<in> set script then script else scripts_path opts @ ''/'' @ script)"

record copied =
  c_ip_address :: string
  c_target_path :: string

definition target_path :: "string \<Rightarrow> nat \<Rightarrow> string" where
  "target_path script t =
     (let basename' = (if sep \<in> set script then basename script else script)
      in ''/tmp/'' @ basename' @ ''_'' @ show_nat (unix t))"

definition copy_cmd :: "options \<Rightarrow> string \<Rightarrow> string \<Rightarrow> string \<Rightarrow> string" where
  "copy_cmd opts script ip tp =
     ''scp -i '' @ private_ssh_key opts @
     '' -o StrictHostKeyChecking=no -o GSSAPIAuthentication=no -q '' @
     getScriptPath opts script @ '' root@'' @ ip @ '':'' @ tp"

definition scp_error :: "int \<Rightarrow> jsval" where
  "scp_error code = Str (''scp returned with error code: '' @ show_int code)"

text \<open>
  The closure \<^verbatim>\<open>kopy\<close>.  \<open>scp n\<close> is the exit code that the \<open>n\<close>-th run of the copy command
  reports; \<open>attempts\<close> is the counter before the increment.  After a failed attempt that
  is not the last, the source sets the timer and then runs on into the lines that report
  success: there is no \<^verbatim>\<open>return\<close> and no \<^verbatim>\<open>else\<close> after \<^verbatim>\<open>setTimeout\<close>.  The retry itself
  starts when the timer fires, after those lines.
\<close>

function kopy :: "(nat \<Rightarrow> int) \<Rightarrow> string \<Rightarrow> copied \<Rightarrow> nat \<Rightarrow> copied action list" where
  "kopy scp cmd res attempts =
     (let attempts' = attempts + 1; code = scp attempts' in
      Do (Exec Scp cmd) #
      (if code \<noteq> 0 then
         (if attempts' > 10 then [Cb (Inl (scp_error code))]
          else Do (Timer 120000) # Cb (Inr res) # kopy scp cmd res attempts')
       else [Cb (Inr res)]))"
  by pat_completeness auto
termination
  by (relation "measure (\<lambda>(scp, cmd, res, attempts). 11 - attempts)") auto

declare kopy.simps [simp del]

definition copyInstanceScript ::
  "options \<Rightarrow> (nat \<Rightarrow> int) \<Rightarrow> nat \<Rightarrow> string \<Rightarrow> string \<Rightarrow> copied action list" where
  "copyInstanceScript opts scp t ip script =
     (let tp = target_path script t
      in kopy scp (copy_cmd opts script ip tp) \<lparr>c_ip_address = ip, c_target_path = tp\<rparr> 0)"

subsection \<open>Running a staged script\<close>

definition script_cmd :: "options \<Rightarrow> string \<Rightarrow> string \<Rightarrow> string" where
  "script_cmd opts ip script_path =
     ''ssh root@'' @ ip @ '' -i '' @ private_ssh_key opts @
     '' -o StrictHostKeyChecking=no -o GSSAPIAuthentication=no -q '' @
     [CHR 0x22] @ ''chmod +x '' @ script_path @ ''; '' @ script_path @ [CHR 0x22]"

definition ssh_error :: "int \<Rightarrow> jsval" where
  "ssh_error code = Str (''ssh returned with error code: '' @ show_int code)"

text \<open>
  The names bound where the callback of \<^verbatim>\<open>_executeExistingInstanceScript\<close> runs: its own
  parameters, the function's parameters and variables, and the variables of the module.
  The metadata object of the error log line reads \<^verbatim>\<open>cmd\<close>, which is none of them (the
  command is held in \<^verbatim>\<open>script_cmd\<close>), so evaluating that object throws a ReferenceError
  before \<^verbatim>\<open>cb\<close> is reached, whether logging is enabled or not.
\<close>

definition module_scope :: "string list" where
  "module_scope =
     [''_'', ''_string'', ''DigitalOceanAPI'', ''apiCommands'', ''fs'', ''Q'', ''nconf'',
      ''shell'', ''async'', ''path'', ''tcpPortUsed'', ''Table'', ''commander'', ''glob'',
      ''moment'', ''MicroEvent'', ''winston'', ''DigitalOceanProvisioner'']"

definition executeExisting_scope :: "string list" where
  "executeExisting_scope =
     [''code'', ''output'', ''ip_address'', ''script_path'', ''cb'', ''script_cmd'', ''self'']
     @ module_scope"

definition reference_error :: "string \<Rightarrow> jsval" where
  "reference_error x = Err (''ReferenceError: '' @ x @ '' is not defined'')"

text \<open>\<open>ssh\<close> is the exit code and the captured output that the remote shell reports.\<close>

definition executeExistingInstanceScript ::
  "options \<Rightarrow> int \<times> string \<Rightarrow> string \<Rightarrow> string \<Rightarrow> string action list" where
  "executeExistingInstanceScript opts ssh ip script_path =
     (case ssh of (code, output) \<Rightarrow>
        Do (Exec Ssh (script_cmd opts ip script_path)) #
        (if code \<noteq> 0 then
           (if ''cmd'' \<in> set executeExisting_scope then [Cb (Inl (ssh_error code))]
            else [Do (Throw (reference_error ''cmd''))])
         else [Cb (Inr output)]))"

subsection \<open>Chaining callbacks\<close>

text \<open>
  \<open>on_callback t err ok\<close> runs the operation whose actions are \<open>t\<close> with the callback
  \<^verbatim>\<open>function(e, r) { if (e) { err } else { ok } }\<close>: the actions of \<open>t\<close> up to its first
  callback, then the actions of the branch taken.  An operation that throws never calls
  back, and the chain ends with it.  What a chain does when an operation calls back a
  second time is not fixed by this repository (it depends on the version of the async
  library), so the chain is followed up to the first callback only; the actions that an
  operation performs after its first callback are described by that operation's own model.
\<close>

fun on_callback ::
  "'a action list \<Rightarrow> (jsval \<Rightarrow> 'b action list) \<Rightarrow> ('a \<Rightarrow> 'b action list) \<Rightarrow> 'b action list" where
  "on_callback [] err ok = []"
| "on_callback (Do e # t) err ok = Do e # on_callback t err ok"
| "on_callback (Cb (Inl v) # t) err ok = err v"
| "on_callback (Cb (Inr r) # t) err ok = ok r"

text \<open>
  \<^verbatim>\<open>async.waterfall([first, second], final)\<close> of the async library: the second task
  receives what the first one passed on, and its callback is the final callback; an error
  of the first task goes to the final callback and the second task is not started.
\<close>

definition async_waterfall :: "'a action list \<Rightarrow> ('a \<Rightarrow> 'b action list) \<Rightarrow> 'b action list" where
  "async_waterfall first second = on_callback first (\<lambda>e. [Cb (Inl e)]) second"

text \<open>
  \<^verbatim>\<open>async.series(tasks, final)\<close> of the async library: each task starts when the one
  before it has called back without error; the first error goes to the final callback, and
  no later task starts; when all have succeeded the final callback gets their results.
\<close>

fun async_series :: "'a action list list \<Rightarrow> 'a list \<Rightarrow> 'a list action list" where
  "async_series [] results = [Cb (Inr results)]"
| "async_series (t # ts) results =
     on_callback t (\<lambda>e. [Cb (Inl e)]) (\<lambda>r. async_series ts (results @ [r]))"

definition executeInstanceScript ::
  "options \<Rightarrow> string + droplet \<Rightarrow> (nat \<Rightarrow> int) \<Rightarrow> int \<times> string \<Rightarrow> nat \<Rightarrow> jsid \<Rightarrow> string
    \<Rightarrow> string action list" where
  "executeInstanceScript opts got scp ssh t instance_id script =
     Do (Get instance_id) #
     (case got of
        Inl err \<Rightarrow> [Cb (Inl (Err err))]
      | Inr inst \<Rightarrow>
          on_callback
            (async_waterfall
               (copyInstanceScript opts scp t (ip_address inst) script)
               (\<lambda>result. executeExistingInstanceScript opts ssh
                            (c_ip_address result) (c_target_path result)))
            (\<lambda>err. [Cb (Inl err)])
            (\<lambda>results. [Cb (Inr results)]))"

section \<open>Mirroring a folder\<close>

definition rsync_cmd :: "options \<Rightarrow> string \<Rightarrow> string \<Rightarrow> string \<Rightarrow> string" where
  "rsync_cmd opts source ip dest =
     ''rsync -avz --delete -e '' @ [CHR 0x27] @ ''ssh -i '' @ private_ssh_key opts @
     '' -o StrictHostKeyChecking=no -o GSSAPIAuthentication=no'' @ [CHR 0x27] @ '' '' @
     source @ '' root@'' @ ip @ '':'' @ dest"

definition rsync_error :: "string \<Rightarrow> jsval" where
  "rsync_error cmd = Str (''Error running rsync: '' @ cmd)"

text \<open>\<^verbatim>\<open>if (dest.slice(-1) !== '/') { dest = dest + '/'; }\<close>; the slice of an empty string is empty.\<close>

definition with_slash :: "string \<Rightarrow> string" where
  "with_slash dest = (if dest = [] \<or> last dest \<noteq> CHR ''/'' then dest @ ''/'' else dest)"

text \<open>
  \<open>got\<close> is the answer of \<^verbatim>\<open>api.dropletGet\<close>, \<open>rsync\<close> the exit code and output of the
  command.
\<close>

definition copyFolder ::
  "options \<Rightarrow> string + droplet \<Rightarrow> int \<times> string \<Rightarrow> jsid \<Rightarrow> string \<Rightarrow> string \<Rightarrow> string action list" where
  "copyFolder opts got rsync instance_id source dest =
     Do (Get instance_id) #
     (case got of
        Inl err \<Rightarrow> [Cb (Inl (Err err))]
      | Inr inst \<Rightarrow>
          (let dest' = with_slash dest;
               rsync_cmd' = rsync_cmd opts source (ip_address inst) dest'
           in Do (Exec Rsync rsync_cmd') #
              (case rsync of (code, output) \<Rightarrow>
                 if code \<noteq> 0 then [Cb (Inl (rsync_error rsync_cmd'))]
                 else [Cb (Inr output)])))"

definition syncFolders ::
  "options \<Rightarrow> string + droplet \<Rightarrow> int \<times> string \<Rightarrow> jsid \<Rightarrow> string \<Rightarrow> string \<Rightarrow> string action list" where
  "syncFolders opts got rsync instance_id source dest =
     Do (Get instance_id) #
     (case got of
        Inl err \<Rightarrow> [Cb (Inl (Err err))]
      | Inr inst \<Rightarrow>
          (let dest' = with_slash dest;
               rsync_cmd' = rsync_cmd opts source (ip_address inst) dest'
           in Do (Exec Rsync rsync_cmd') #
              (case rsync of (code, output) \<Rightarrow>
                 if code \<noteq> 0 then [Cb (Inl (rsync_error rsync_cmd'))]
                 else [Cb (Inr output)])))"

section \<open>Configuring a created instance\<close>

record folder =
  source :: string
  destination :: string

text \<open>
  One provisioning request.  \<open>folders\<close> and \<open>scripts\<close> are \<open>None\<close> when the field is not
  an array (\<^verbatim>\<open>_.isArray\<close> is false).
\<close>

record request =
  name :: string
  size' :: string
  image' :: string
  region :: string
  private_networking :: bool
  folders :: "folder list option"
  scripts :: "string list option"

text \<open>
  What the collaborators answer while one instance is configured.  The \<open>k\<close>-th folder's
  sync sees \<open>folder_got k\<close> and \<open>folder_rsync k\<close>; the \<open>k\<close>-th script sees
  \<open>script_got k\<close>, the exit codes \<open>script_scp k\<close> of its copy attempts, \<open>script_ssh k\<close>, and
  the clock reading \<open>script_clock k\<close> when its copy begins; \<open>all_got\<close> is the answer of
  \<^verbatim>\<open>api.dropletGetAll\<close>.
\<close>

record cenv =
  folder_got :: "nat \<Rightarrow> string + droplet"
  folder_rsync :: "nat \<Rightarrow> int \<times> string"
  all_got :: "string + droplet list"
  script_got :: "nat \<Rightarrow> string + droplet"
  script_scp :: "nat \<Rightarrow> nat \<Rightarrow> int"
  script_ssh :: "nat \<Rightarrow> int \<times> string"
  script_clock :: "nat \<Rightarrow> nat"

text \<open>
  \<^verbatim>\<open>executeScripts\<close> for a single instance identifier, as \<^verbatim>\<open>_provision\<close> calls it: one series
  of scripts, wrapped in an \<^verbatim>\<open>async.parallel\<close> of that one series.  An error of
  \<^verbatim>\<open>dropletGetAll\<close> is thrown.
\<close>

definition script_tasks :: "options \<Rightarrow> cenv \<Rightarrow> jsid \<Rightarrow> string list \<Rightarrow> string action list list" where
  "script_tasks opts env instance_id scripts' =
     map (\<lambda>(k, script).
            executeInstanceScript opts (script_got env k) (script_scp env k) (script_ssh env k)
              (script_clock env k) instance_id script)
         (enumerate 0 scripts')"

definition executeScripts ::
  "options \<Rightarrow> cenv \<Rightarrow> jsid \<Rightarrow> string list \<Rightarrow> string list list action list" where
  "executeScripts opts env instance_id scripts' =
     Do GetAll #
     (case all_got env of
        Inl err \<Rightarrow> [Do (Throw (Err err))]
      | Inr droplets \<Rightarrow>
          on_callback (async_series (script_tasks opts env instance_id scripts') [])
            (\<lambda>err. [Cb (Inl err)])
            (\<lambda>result. [Cb (Inr [result])]))"

definition runScripts :: "options \<Rightarrow> cenv \<Rightarrow> request \<Rightarrow> droplet \<Rightarrow> droplet action list" where
  "runScripts opts env req inst =
     (case scripts req of
        Some scripts' \<Rightarrow>
          if scripts' \<noteq> [] then
            on_callback (executeScripts opts env (droplet_id inst) scripts')
              (\<lambda>err. [Cb (Inl err)])
              (\<lambda>result. [Cb (Inr inst)])
          else [Cb (Inr inst)]
      | None \<Rightarrow> [Cb (Inr inst)])"

definition folder_tasks :: "options \<Rightarrow> cenv \<Rightarrow> jsid \<Rightarrow> folder list \<Rightarrow> string action list list" where
  "folder_tasks opts env instance_id fs =
     map (\<lambda>(k, f).
            copyFolder opts (folder_got env k) (folder_rsync env k) instance_id
              (source f) (destination f))
         (enumerate 0 fs)"

text \<open>
  The part of the closure \<^verbatim>\<open>cb\<close> in \<^verbatim>\<open>_provision\<close> that follows its guards: the folders in
  series, then \<^verbatim>\<open>runScripts\<close>.  Its callback is \<^verbatim>\<open>finalCb\<close>.
\<close>

definition configure :: "options \<Rightarrow> cenv \<Rightarrow> request \<Rightarrow> droplet \<Rightarrow> droplet action list" where
  "configure opts env req inst =
     (case folders req of
        Some fs \<Rightarrow>
          on_callback (async_series (folder_tasks opts env (droplet_id inst) fs) [])
            (\<lambda>err. [Cb (Inl err)])
            (\<lambda>result. runScripts opts env req inst)
      | None \<Rightarrow> runScripts opts env req inst)"

section \<open>Bringing one instance up\<close>

text \<open>
  \<^verbatim>\<open>_provision\<close> reacts to what happens around it.  Each event below is one callback of the
  source being run: the answer of \<^verbatim>\<open>dropletNew\<close>, a firing of the 8-second interval, an
  answer of \<^verbatim>\<open>eventGet\<close> together with the clock reading when it is handled, the port
  probe's promise being fulfilled or rejected, and the 10-second timer firing.
\<close>

datatype event =
    Created "string + droplet"
  | Tick
  | Polled nat "string + string"
  | PortUp
  | PortFail string
  | Settled

text \<open>
  The variables of one call: \<open>start\<close> (whole seconds), \<open>called\<close>, and the interval, of
  which only whether it is still running matters.  \<open>polls\<close>, \<open>port_waits\<close> and \<open>settles\<close>
  count the requests, probes and timers that have been started and not yet answered;
  \<open>crashed\<close> holds once an exception has left a callback; \<open>out\<close> lists the actions so far.
\<close>

record pstate =
  start :: nat
  created :: "droplet option"
  ticking :: bool
  polls :: nat
  port_waits :: nat
  settles :: nat
  called :: bool
  crashed :: bool
  out :: "droplet action list"

definition getDropletLaunchTimeout :: int where
  "getDropletLaunchTimeout = 600"

definition timeout_error :: jsval where
  "timeout_error = Str (''Creation of new droplet exceeded timeout of: '' @ show_int getDropletLaunchTimeout)"

definition is_throw :: "'r action \<Rightarrow> bool" where
  "is_throw a = (case a of Do (Throw e) \<Rightarrow> True | _ \<Rightarrow> False)"

text \<open>
  The closure \<^verbatim>\<open>cb\<close>.  The actions of the configuration are appended in one block.
\<close>

definition cb :: "options \<Rightarrow> cenv \<Rightarrow> request \<Rightarrow> pstate \<Rightarrow> jsval + droplet \<Rightarrow> pstate" where
  "cb opts env req s r =
     (if called s then s
      else
        (let s' = s\<lparr>called := True, ticking := False\<rparr> in
         case r of
           Inl err \<Rightarrow> s'\<lparr>out := out s' @ [Cb (Inl err)]\<rparr>
         | Inr inst \<Rightarrow>
             (let acts = configure opts env req inst
              in s'\<lparr>crashed := list_ex is_throw acts, out := out s' @ acts\<rparr>)))"

definition provision_start :: "options \<Rightarrow> request \<Rightarrow> nat \<Rightarrow> pstate" where
  "provision_start opts req t =
     \<lparr>start = unix t, created = None, ticking = False, polls = 0, port_waits = 0,
      settles = 0, called = False, crashed = False,
      out = [Do (New (name req) (size' req) (image' req) (region req)
                     (private_networking req) (ssh_key_id opts))]\<rparr>"

definition on_poll :: "options \<Rightarrow> cenv \<Rightarrow> request \<Rightarrow> droplet \<Rightarrow> pstate \<Rightarrow> nat \<Rightarrow> string + string \<Rightarrow> pstate" where
  "on_poll opts env req d s now r =
     (case r of
        Inl err \<Rightarrow> cb opts env req (s\<lparr>ticking := False\<rparr>) (Inl (Err err))
      | Inr action_status \<Rightarrow>
          if action_status = ''done'' then
            s\<lparr>ticking := False, port_waits := port_waits s + 1,
              out := out s @ [Do (PortWait 22 (ip_address d) 1000 240000)]\<rparr>
          else
            (let tsDiff = int (unix now) - int (start s) in
             if tsDiff \<ge> getDropletLaunchTimeout then
               cb opts env req (s\<lparr>ticking := False\<rparr>) (Inl timeout_error)
             else s))"

definition step :: "options \<Rightarrow> cenv \<Rightarrow> request \<Rightarrow> pstate \<Rightarrow> event \<Rightarrow> pstate" where
  "step opts env req s ev =
     (if crashed s then s
      else
        (case created s of
           None \<Rightarrow>
             (case ev of
                Created (Inl err) \<Rightarrow> s\<lparr>crashed := True, out := out s @ [Do (Throw (Err err))]\<rparr>
              | Created (Inr d) \<Rightarrow> s\<lparr>created := Some d, ticking := True\<rparr>
              | _ \<Rightarrow> s)
         | Some d \<Rightarrow>
             (case ev of
                Created r \<Rightarrow> s
              | Tick \<Rightarrow>
                  if ticking s
                  then s\<lparr>polls := polls s + 1, out := out s @ [Do (EventGet (event_id d))]\<rparr>
                  else s
              | Polled now r \<Rightarrow>
                  if polls s = 0 then s
                  else on_poll opts env req d (s\<lparr>polls := polls s - 1\<rparr>) now r
              | PortUp \<Rightarrow>
                  if port_waits s = 0 then s
                  else s\<lparr>port_waits := port_waits s - 1, settles := settles s + 1,
                         out := out s @ [Do (Timer 10000)]\<rparr>
              | PortFail err \<Rightarrow>
                  if port_waits s = 0 then s
                  else cb opts env req (s\<lparr>port_waits := port_waits s - 1\<rparr>) (Inl (Err err))
              | Settled \<Rightarrow>
                  if settles s = 0 then s
                  else cb opts env req (s\<lparr>settles := settles s - 1\<rparr>) (Inr d))))"

text \<open>\<^verbatim>\<open>_provision\<close>: the state after the events \<open>evs\<close>, for a call made at clock reading \<open>t\<close>.\<close>

definition provision1 :: "options \<Rightarrow> cenv \<Rightarrow> request \<Rightarrow> nat \<Rightarrow> event list \<Rightarrow> pstate" where
  "provision1 opts env req t evs = foldl (step opts env req) (provision_start opts req t) evs"

section \<open>Batches\<close>

text \<open>An argument that is either one value or an array of them (\<^verbatim>\<open>_.isArray\<close>).\<close>

datatype 'a one_or_many = One 'a | Many "'a list"

fun as_array :: "'a one_or_many \<Rightarrow> 'a list" where
  "as_array (One x) = [x]"
| "as_array (Many xs) = xs"

text \<open>
  \<^verbatim>\<open>async.parallel(tasks, final)\<close> of the async library, for \<open>n\<close> tasks that have all been
  started.  \<open>cs\<close> lists
  the tasks' callbacks in the order in which they arrive, each with the index of its task;
  \<open>res\<close> holds the results so far.  The final callback receives the results in the order
  of the tasks once every task has one, and the first error as soon as it arrives.
\<close>

fun async_parallel ::
  "nat \<Rightarrow> (nat \<times> (jsval + 'a)) list \<Rightarrow> (nat \<Rightarrow> 'a option) \<Rightarrow> 'a list action list" where
  "async_parallel n cs res =
     (if list_all (\<lambda>i. res i \<noteq> None) [0..<n] then [Cb (Inr (map (\<lambda>i. the (res i)) [0..<n]))]
      else
        (case cs of
           [] \<Rightarrow> []
         | (i, Inl err) # cs' \<Rightarrow> [Cb (Inl err)]
         | (i, Inr v) # cs' \<Rightarrow> async_parallel n cs' (res(i \<mapsto> v))))"

declare async_parallel.simps [simp del]

text \<open>What an operation passes to its callback, if it calls back at all.\<close>

fun delivered :: "'r action list \<Rightarrow> (jsval + 'r) option" where
  "delivered [] = None"
| "delivered (Do e # t) = delivered t"
| "delivered (Cb r # t) = Some r"

text \<open>
  The same with both arguments of the final callback written out, as \<^verbatim>\<open>provision\<close> hands
  both on.  Each task's callback stores its result at the task's index of the results
  array (\<^verbatim>\<open>undefined\<close> when the task failed) before the error is looked at, so with the
  first error the final callback also receives the array as it then is: \<open>len\<close> is its
  length, \<open>Some v\<close> an element \<open>v\<close>, \<open>None\<close> an element that is \<^verbatim>\<open>undefined\<close> or was never
  set.  A call \<^verbatim>\<open>final(err, results)\<close> is written \<open>(err, results)\<close>, \<open>None\<close> for no error.
\<close>

fun async_parallel_calls ::
  "nat \<Rightarrow> (nat \<times> (jsval + 'a)) list \<Rightarrow> (nat \<Rightarrow> 'a option) \<Rightarrow> nat
    \<Rightarrow> (jsval option \<times> 'a option list) list" where
  "async_parallel_calls n cs res len =
     (if list_all (\<lambda>i. res i \<noteq> None) [0..<n] then [(None, map res [0..<n])]
      else
        (case cs of
           [] \<Rightarrow> []
         | (i, Inl err) # cs' \<Rightarrow> [(Some err, map (res(i := None)) [0..<max len (Suc i)])]
         | (i, Inr v) # cs' \<Rightarrow> async_parallel_calls n cs' (res(i \<mapsto> v)) (max len (Suc i))))"

declare async_parallel_calls.simps [simp del]


text \<open>The surroundings of one request's pipeline: the answers, the clock at its start, the events.\<close>

record run =
  run_env :: cenv
  run_clock :: nat
  run_events :: "event list"





section \<open>Destroying all instances but some\<close>

text \<open>
  \<^verbatim>\<open>parseInt(x, 10)\<close>; \<open>None\<close> is NaN.  A string is read past its leading blanks (the
  ASCII ones): an optional sign, then the longest run of decimal digits, which must not be
  empty.  The value of the digits becomes a JavaScript number, a double: it is rounded to
  53 significant bits, ties to even, and a value too large for a double becomes Infinity,
  for which \<open>2 ^ 1024\<close> stands.  \<open>IdNum n\<close> is a JavaScript number already, an integer that
  a double holds and that is written without an exponent (below \<open>10 ^ 21\<close>); it is read
  back from its own decimal text, so it is returned as it is.
\<close>

fun bit_length :: "nat \<Rightarrow> nat" where
  "bit_length n = (if n = 0 then 0 else Suc (bit_length (n div 2)))"

declare bit_length.simps [simp del]

definition to_double :: "nat \<Rightarrow> nat" where
  "to_double n =
     (if n < 9007199254740992 then n
      else
        (let e = bit_length n - 53;
             q = n div 2 ^ e;
             r = n mod 2 ^ e;
             half = 2 ^ (e - 1);
             q' = (if half < r \<or> (r = half \<and> odd q) then q + 1 else q);
             m = q' * 2 ^ e
         in if 2 ^ 1024 \<le> m then 2 ^ 1024 else m))"

definition digit_of :: "char \<Rightarrow> nat option" where
  "digit_of c =
     map_of [(CHR ''0'', 0), (CHR ''1'', 1), (CHR ''2'', 2), (CHR ''3'', 3), (CHR ''4'', 4),
             (CHR ''5'', 5), (CHR ''6'', 6), (CHR ''7'', 7), (CHR ''8'', 8), (CHR ''9'', 9)] c"

definition is_blank :: "char \<Rightarrow> bool" where
  "is_blank c = (c \<in> set [CHR '' '', CHR 0x09, CHR 0x0A, CHR 0x0B, CHR 0x0C, CHR 0x0D])"

definition read_digits :: "string \<Rightarrow> nat option" where
  "read_digits s =
     (let ds = takeWhile (\<lambda>c. digit_of c \<noteq> None) s
      in if ds = [] then None
         else Some (to_double (foldl (\<lambda>a c. 10 * a + the (digit_of c)) 0 ds)))"

fun parseInt10 :: "jsid \<Rightarrow> int option" where
  "parseInt10 (IdNum n) = Some n"
| "parseInt10 (IdStr s) =
     (case dropWhile is_blank s of
        [] \<Rightarrow> None
      | c # cs \<Rightarrow>
          if c = CHR ''-'' then map_option (\<lambda>n. - int n) (read_digits cs)
          else if c = CHR ''+'' then map_option int (read_digits cs)
          else map_option int (read_digits (c # cs)))"

text \<open>\<^verbatim>\<open>ids.indexOf(x) < 0\<close>: the comparison is strict equality, under which NaN equals nothing.\<close>

definition not_indexed :: "int option list \<Rightarrow> int option \<Rightarrow> bool" where
  "not_indexed ids x = (case x of None \<Rightarrow> True | Some n \<Rightarrow> Some n \<notin> set ids)"

definition bad_ids :: "jsid list \<Rightarrow> droplet list \<Rightarrow> int option list" where
  "bad_ids ids droplets =
     filter (not_indexed (map parseInt10 ids)) (map (\<lambda>d. parseInt10 (droplet_id d)) droplets)"

text \<open>
  \<open>got\<close> is the answer of \<^verbatim>\<open>api.dropletGetAll\<close>; \<open>cs\<close> lists the callbacks of the destroy
  calls as they arrive.  The last callback of the source passes \<^verbatim>\<open>result\<close> alone, in the
  error position: \<^verbatim>\<open>return cb(result)\<close>.
\<close>

definition dropletDestroyExcept ::
  "jsid one_or_many \<Rightarrow> string + droplet list \<Rightarrow> (nat \<times> (jsval + jsval)) list \<Rightarrow> 'r action list" where
  "dropletDestroyExcept ids got cs =
     Do GetAll #
     (case got of
        Inl err \<Rightarrow> [Cb (Inl (Err err))]
      | Inr droplets \<Rightarrow>
          (let bad_ids' = bad_ids (as_array ids) droplets
           in map (\<lambda>id'. Do (Destroy id')) bad_ids' @
              on_callback (async_parallel (length bad_ids') cs Map.empty)
                (\<lambda>err. [Cb (Inl err)])
                (\<lambda>result. [Cb (Inl (Arr result))])))"

section \<open>Reading traces\<close>

text \<open>The actions of an operation before its first callback.\<close>

fun started :: "'a action list \<Rightarrow> 'b action list" where
  "started [] = []"
| "started (Do e # t) = Do e # started t"
| "started (Cb r # t) = []"

text \<open>The sync of the \<open>k\<close>-th folder of a request, as \<^verbatim>\<open>_provision\<close> starts it.\<close>

definition folder_sync :: "options \<Rightarrow> cenv \<Rightarrow> droplet \<Rightarrow> folder list \<Rightarrow> nat \<Rightarrow> string action list" where
  "folder_sync opts env inst fs k =
     copyFolder opts (folder_got env k) (folder_rsync env k) (droplet_id inst)
       (source (fs ! k)) (destination (fs ! k))"

text \<open>
  The error values that can come out of the configuration of an instance: an error of a
  collaborator, the rsync message, the scp message.
\<close>

definition benign :: "jsval \<Rightarrow> bool" where
  "benign v = ((\<exists>e. v = Err e) \<or> (\<exists>c. v = rsync_error c) \<or> (\<exists>c. v = scp_error c))"

text \<open>
  An operation that throws does not call back.  While nothing has been passed on, and
  after an exception, the caller of \<^verbatim>\<open>_provision\<close> has received nothing.
\<close>

definition quiet_throw :: "'r action list \<Rightarrow> bool" where
  "quiet_throw t = (list_ex is_throw t \<longrightarrow> (\<forall>r. Cb r \<notin> set t))"


text \<open>
  The caller of \<^verbatim>\<open>_provision\<close> has been handed the creation-timeout error; a poll is
  outstanding whose answer can still be passed on (nothing has been passed on yet).
\<close>

definition timeout_reported :: "pstate \<Rightarrow> bool" where
  "timeout_reported s = (Cb (Inl timeout_error) \<in> set (out s))"

definition listening :: "pstate \<Rightarrow> bool" where
  "listening s = (\<not> crashed s \<and> created s \<noteq> None \<and> 0 < polls s \<and> \<not> called s)"

section \<open>Sample inputs\<close>

definition sample_options :: options where
  "sample_options =
     \<lparr>private_ssh_key = ''/k/id_rsa'', scripts_path = ''/srv/scripts'', ssh_key_id = ''7''\<rparr>"

definition sample_droplet :: droplet where
  "sample_droplet = \<lparr>droplet_id = IdNum 5, ip_address = ''10.0.0.1'', event_id = IdNum 9\<rparr>"


definition numbered :: "jsid \<Rightarrow> droplet" where
  "numbered i = \<lparr>droplet_id = i, ip_address = ''10.0.0.1'', event_id = IdNum 0\<rparr>"

definition sample_folders :: "folder list" where
  "sample_folders =
     [\<lparr>source = ''a'', destination = ''/srv/a''\<rparr>,
      \<lparr>source = ''b'', destination = ''/srv/b''\<rparr>,
      \<lparr>source = ''c'', destination = ''/srv/c''\<rparr>]"

text \<open>Three folders and two scripts, as in the spec's example; and a request with neither.\<close>

definition sample_request :: request where
  "sample_request =
     \<lparr>name = ''agent2'', size' = ''66'', image' = ''3101045'', region = ''4'',
      private_networking = True, folders = Some sample_folders,
      scripts = Some [''node'', ''redis'']\<rparr>"



text \<open>
  Surroundings in which every lookup, every rsync, every scp and every ssh succeeds; and
  the same with the rsync of the second folder failing.
\<close>

definition sample_env :: cenv where
  "sample_env =
     \<lparr>folder_got = (\<lambda>k. Inr sample_droplet), folder_rsync = (\<lambda>k. (0, ''sent'')),
      all_got = Inr [sample_droplet],
      script_got = (\<lambda>k. Inr sample_droplet), script_scp = (\<lambda>k n. 0),
      script_ssh = (\<lambda>k. (0, ''done'')), script_clock = (\<lambda>k. 5000)\<rparr>"

definition sample_env_lost :: cenv where
  "sample_env_lost =
     sample_env\<lparr>folder_rsync := (\<lambda>k. if k = 1 then (23, ''lost'') else (0, ''sent''))\<rparr>"




section \<open>Decimal text determines the number\<close>

lemma digit_of_nth: "m < 10 \<Longrightarrow> digit_of (''0123456789'' ! m) = Some m"
proof -
  assume "m < 10"
  then have "m = 0 \<or> m = 1 \<or> m = 2 \<or> m = 3 \<or> m = 4 \<or> m = 5 \<or> m = 6 \<or> m = 7 \<or> m = 8 \<or> m = 9"
    by arith
  then show ?thesis
    by (elim disjE) (simp_all add: digit_of_def)
qed

lemma digit_of_digit_char: "digit_of (digit_char d) = Some (d mod 10)"
  by (simp add: digit_char_def digit_of_nth)

lemma read_digits_show_nat: "foldl (\<lambda>a c. 10 * a + the (digit_of c)) 0 (show_nat n) = n"
proof (induction n rule: show_nat.induct)
  case (1 n)
  show ?case
  proof (cases "n < 10")
    case True
    then show ?thesis
      by (simp add: show_nat.simps [of n] digit_of_digit_char)
  next
    case False
    with "1" have "foldl (\<lambda>a c. 10 * a + the (digit_of c)) 0 (show_nat (n div 10)) = n div 10"
      by simp
    with False show ?thesis
      by (simp add: show_nat.simps [of n] digit_of_digit_char)
  qed
qed

lemma show_nat_inj: "show_nat a = show_nat b \<Longrightarrow> a = b"
  by (metis read_digits_show_nat)

section \<open>The copy loop\<close>

lemma kopy_retry:
  "scp (Suc a) \<noteq> 0 \<Longrightarrow> a < 10 \<Longrightarrow>
   kopy scp cmd res a = Do (Exec Scp cmd) # Do (Timer 120000) # Cb (Inr res) # kopy scp cmd res (Suc a)"
  by (simp add: kopy.simps [of scp cmd res a] Let_def)

lemma kopy_give_up:
  "scp 11 \<noteq> 0 \<Longrightarrow> kopy scp cmd res 10 = [Do (Exec Scp cmd), Cb (Inl (scp_error (scp 11)))]"
  by (simp add: kopy.simps [of scp cmd res 10] Let_def)

lemma kopy_success:
  "scp (Suc a) = 0 \<Longrightarrow> kopy scp cmd res a = [Do (Exec Scp cmd), Cb (Inr res)]"
  by (simp add: kopy.simps [of scp cmd res a] Let_def)

lemma kopy_all_fail:
  assumes "\<forall>n. scp n \<noteq> 0"
  shows "a + k = 10 \<Longrightarrow>
    kopy scp cmd res a =
      concat (replicate k [Do (Exec Scp cmd), Do (Timer 120000), Cb (Inr res)]) @
      [Do (Exec Scp cmd), Cb (Inl (scp_error (scp 11)))]"
proof (induction k arbitrary: a)
  case 0
  with assms show ?case by (simp add: kopy_give_up)
next
  case (Suc k)
  then have "a < 10" and "Suc a + k = 10" by arith+
  moreover from assms have "scp (Suc a) \<noteq> 0" by blast
  ultimately show ?case
    by (simp add: kopy_retry Suc.IH)
qed

lemma on_callback_kopy_first:
  "on_callback (kopy scp cmd res 0) err ok =
     Do (Exec Scp cmd) # (if scp 1 \<noteq> 0 then Do (Timer 120000) # ok res else ok res)"
  by (simp add: kopy.simps [of scp cmd res 0] Let_def)

lemma cmd_unbound: "''cmd'' \<notin> set executeExisting_scope"
  by (simp add: executeExisting_scope_def module_scope_def)

lemma executeExisting_cases:
  "executeExistingInstanceScript opts (code, captured) ip p =
     Do (Exec Ssh (script_cmd opts ip p)) #
     (if code \<noteq> 0 then [Do (Throw (reference_error ''cmd''))] else [Cb (Inr captured)])"
  by (simp add: executeExistingInstanceScript_def cmd_unbound)

text \<open>
  Claim C3.  When every run of the copy command fails, \<^verbatim>\<open>_copyInstanceScript\<close> runs it
  eleven times: ten rounds of a run, a 120000-millisecond timer and (the source running on
  past the timer) a success callback, then an eleventh run followed by the callback with
  the error \<^verbatim>\<open>'scp returned with error code: ' + code\<close>, after which nothing more happens.
  When the first run succeeds there is that one run, no timer, and the success callback.
\<close>

theorem copy_attempts:
  "(let cmd = copy_cmd opts script ip (target_path script t);
        res = \<lparr>c_ip_address = ip, c_target_path = target_path script t\<rparr>;
        acts = copyInstanceScript opts scp t ip script
    in ((\<forall>n. scp n \<noteq> 0) \<longrightarrow>
          acts = concat (replicate 10 [Do (Exec Scp cmd), Do (Timer 120000), Cb (Inr res)]) @
                 [Do (Exec Scp cmd), Cb (Inl (scp_error (scp 11)))] \<and>
          length (filter (\<lambda>a. a = Do (Exec Scp cmd)) acts) = 11 \<and>
          filter (\<lambda>a. a \<noteq> Do (Exec Scp cmd) \<and> a \<noteq> Cb (Inr res)) acts =
            replicate 10 (Do (Timer 120000)) @ [Cb (Inl (scp_error (scp 11)))]) \<and>
       (scp 1 = 0 \<longrightarrow> acts = [Do (Exec Scp cmd), Cb (Inr res)]))"
proof -
  define cmd where "cmd = copy_cmd opts script ip (target_path script t)"
  define res where "res = \<lparr>c_ip_address = ip, c_target_path = target_path script t\<rparr>"
  define round where "round = [Do (Exec Scp cmd), Do (Timer 120000), Cb (Inr res)]"
  have acts: "copyInstanceScript opts scp t ip script = kopy scp cmd res 0"
    by (simp add: copyInstanceScript_def Let_def cmd_def res_def)
  have fail: "kopy scp cmd res 0 = concat (replicate 10 round) @ [Do (Exec Scp cmd), Cb (Inl (scp_error (scp 11)))]"
    if "\<forall>n. scp n \<noteq> 0"
    using kopy_all_fail [OF that, of 0 10 cmd res] by (simp add: round_def)
  have count: "length (filter (\<lambda>a. a = Do (Exec Scp cmd)) (concat (replicate k round))) = k" for k
    by (induction k) (simp_all add: round_def)
  have timers: "filter (\<lambda>a. a \<noteq> Do (Exec Scp cmd) \<and> a \<noteq> Cb (Inr res)) (concat (replicate k round))
      = replicate k (Do (Timer 120000))" for k
    by (induction k) (simp_all add: round_def)
  have ok: "kopy scp cmd res 0 = [Do (Exec Scp cmd), Cb (Inr res)]" if "scp 1 = 0"
    using kopy_success [of scp 0 cmd res] that by simp
  show ?thesis
    unfolding Let_def cmd_def [symmetric] res_def [symmetric] acts
    using fail ok count [of 10] timers [of 10] by (simp add: round_def [symmetric])
qed

theorem copy_attempts_witness:
  "(\<forall>n. (\<lambda>_::nat. 1::int) n \<noteq> 0) \<and>
   copyInstanceScript sample_options (\<lambda>_. 1) 5000 ''10.0.0.1'' ''setup.sh'' =
     concat (replicate 10
       [Do (Exec Scp (copy_cmd sample_options ''setup.sh'' ''10.0.0.1'' (target_path ''setup.sh'' 5000))),
        Do (Timer 120000),
        Cb (Inr \<lparr>c_ip_address = ''10.0.0.1'', c_target_path = target_path ''setup.sh'' 5000\<rparr>)]) @
     [Do (Exec Scp (copy_cmd sample_options ''setup.sh'' ''10.0.0.1'' (target_path ''setup.sh'' 5000))),
      Cb (Inl (scp_error 1))] \<and>
   (\<lambda>_::nat. 0::int) 1 = 0 \<and>
   copyInstanceScript sample_options (\<lambda>_. 0) 5000 ''10.0.0.1'' ''setup.sh'' =
     [Do (Exec Scp (copy_cmd sample_options ''setup.sh'' ''10.0.0.1'' (target_path ''setup.sh'' 5000))),
      Cb (Inr \<lparr>c_ip_address = ''10.0.0.1'', c_target_path = target_path ''setup.sh'' 5000\<rparr>)]"
proof -
  have fails: "\<forall>n. (\<lambda>_::nat. 1::int) n \<noteq> 0" and succeeds: "(\<lambda>_::nat. 0::int) 1 = 0"
    by simp_all
  from fails succeeds
    copy_attempts [where scp = "\<lambda>_. 1" and opts = sample_options and script = "''setup.sh''"
      and ip = "''10.0.0.1''" and t = 5000]
    copy_attempts [where scp = "\<lambda>_. 0" and opts = sample_options and script = "''setup.sh''"
      and ip = "''10.0.0.1''" and t = 5000]
  show ?thesis
    unfolding Let_def by blast
qed

text \<open>
  Claim C1, where the code departs from it.  When the first run of the copy command fails,
  \<^verbatim>\<open>executeInstanceScript\<close> still goes on to the remote execution: \<^verbatim>\<open>kopy\<close> sets the retry
  timer and then calls back with success, so \<^verbatim>\<open>async.waterfall\<close> starts
  \<^verbatim>\<open>_executeExistingInstanceScript\<close> although no copy has succeeded.  Here the remote
  command then exits with 0 and its output is handed to the caller as a success.
\<close>

theorem execute_after_failed_copy:
  "scp 1 \<noteq> 0 \<Longrightarrow>
   executeInstanceScript opts (Inr inst) scp (0, captured) t instance_id script =
     [Do (Get instance_id),
      Do (Exec Scp (copy_cmd opts script (ip_address inst) (target_path script t))),
      Do (Timer 120000),
      Do (Exec Ssh (script_cmd opts (ip_address inst) (target_path script t))),
      Cb (Inr captured)]"
  by (simp add: executeInstanceScript_def async_waterfall_def copyInstanceScript_def Let_def
      on_callback_kopy_first executeExisting_cases)

theorem execute_after_failed_copy_witness:
  "(\<lambda>_::nat. 1::int) 1 \<noteq> 0 \<and>
   executeInstanceScript sample_options (Inr sample_droplet) (\<lambda>_. 1) (0, ''ok'') 5000 (IdNum 5) ''setup.sh'' =
     [Do (Get (IdNum 5)),
      Do (Exec Scp (copy_cmd sample_options ''setup.sh'' (ip_address sample_droplet) (target_path ''setup.sh'' 5000))),
      Do (Timer 120000),
      Do (Exec Ssh (script_cmd sample_options (ip_address sample_droplet) (target_path ''setup.sh'' 5000))),
      Cb (Inr ''ok'')]"
  using execute_after_failed_copy [where scp = "\<lambda>_. 1" and opts = sample_options
          and inst = sample_droplet and captured = "''ok''" and t = 5000
          and instance_id = "IdNum 5" and script = "''setup.sh''"]
  by simp

text \<open>
  Claim C7, where the code departs from it.  \<^verbatim>\<open>_executeExistingInstanceScript\<close> starts
  exactly one command, the remote shell running \<^verbatim>\<open>chmod +x\<close> on the staged path and then
  the staged path itself, and never a second one.  On exit code 0 it calls back with the
  captured output.  On any other exit code the callback of the command throws a
  ReferenceError while it builds the error log line, before it reaches
  \<^verbatim>\<open>cb('ssh returned with error code: ' + code)\<close>: the caller receives no error value, as the
  run with exit code 1 shows.
\<close>

theorem execute_failure_throws:
  "executeExistingInstanceScript opts (code, captured) ip p =
     Do (Exec Ssh (script_cmd opts ip p)) #
     (if code \<noteq> 0 then [Do (Throw (reference_error ''cmd''))] else [Cb (Inr captured)]) \<and>
   script_cmd opts ip p =
     ''ssh root@'' @ ip @ '' -i '' @ private_ssh_key opts @
     '' -o StrictHostKeyChecking=no -o GSSAPIAuthentication=no -q '' @
     [CHR 0x22] @ ''chmod +x '' @ p @ ''; '' @ p @ [CHR 0x22] \<and>
   executeExistingInstanceScript sample_options (1, ''no'') ''10.0.0.1'' ''/tmp/setup.sh_5'' =
     [Do (Exec Ssh (script_cmd sample_options ''10.0.0.1'' ''/tmp/setup.sh_5'')),
      Do (Throw (reference_error ''cmd''))] \<and>
   delivered (executeExistingInstanceScript sample_options (1, ''no'') ''10.0.0.1'' ''/tmp/setup.sh_5'')
     = None"
  by (simp add: executeExisting_cases) (simp add: script_cmd_def)

text \<open>
  Claim C9, as amended.  Two calls of \<^verbatim>\<open>_copyInstanceScript\<close> for the same script whose
  clock readings fall into different whole seconds stage the script under different
  remote paths.
\<close>

theorem staging_paths_differ:
  "unix t1 \<noteq> unix t2 \<Longrightarrow> target_path script t1 \<noteq> target_path script t2"
  by (auto simp: target_path_def Let_def dest: show_nat_inj)

theorem staging_paths_differ_witness:
  "unix 1000 \<noteq> unix 2000 \<and> target_path ''setup.sh'' 1000 \<noteq> target_path ''setup.sh'' 2000"
  using staging_paths_differ [of 1000 2000 "''setup.sh''"] by (simp add: unix_def)

text \<open>
  Claim C9 as it was stated fails: the readings 1000 ms and 1999 ms are different times
  within one second, and both calls stage the script under the same path.
\<close>

theorem staging_paths_collide:
  "(1000::nat) \<noteq> 1999 \<and> target_path ''setup.sh'' 1000 = target_path ''setup.sh'' 1999"
  by (simp add: target_path_def unix_def)

text \<open>
  Claim C10.  \<^verbatim>\<open>copyFolder\<close> and \<^verbatim>\<open>syncFolders\<close> do the same for every instance identifier,
  source, destination and every answer of the API and of the command: the same lookup,
  the same trailing slash, the same rsync command, the same value to the callback.
\<close>

theorem copyFolder_syncFolders:
  "copyFolder opts got rsync instance_id src dst = syncFolders opts got rsync instance_id src dst"
  by (simp add: copyFolder_def syncFolders_def)

section \<open>Chains of callbacks\<close>

lemma on_callback_mem:
  "x \<in> set (on_callback t err ok) \<Longrightarrow>
     (\<exists>e. x = Do e \<and> Do e \<in> set t) \<or>
     (\<exists>v. Cb (Inl v) \<in> set t \<and> x \<in> set (err v)) \<or>
     (\<exists>r. Cb (Inr r) \<in> set t \<and> x \<in> set (ok r))"
  by (induction t err ok rule: on_callback.induct) auto

lemma on_callback_pass_err:
  "Cb (Inl v) \<in> set (on_callback t (\<lambda>e. [Cb (Inl e)]) ok) \<Longrightarrow>
     Cb (Inl v) \<in> set t \<or> (\<exists>r. Cb (Inl v) \<in> set (ok r))"
proof (induction t)
  case Nil
  then show ?case by simp
next
  case (Cons a t)
  show ?case
  proof (cases a)
    case (Do e)
    with Cons show ?thesis by auto
  next
    case (Cb x)
    with Cons.prems show ?thesis by (cases x) auto
  qed
qed

lemma on_callback_split:
  "on_callback t err ok =
     started t @ (case delivered t of None \<Rightarrow> [] | Some (Inl v) \<Rightarrow> err v | Some (Inr r) \<Rightarrow> ok r)"
proof (induction t)
  case Nil
  then show ?case by simp
next
  case (Cons a t)
  show ?case
  proof (cases a)
    case (Do e)
    with Cons show ?thesis by simp
  next
    case (Cb x)
    then show ?thesis by (cases x) simp_all
  qed
qed

lemma started_started [simp]: "started (started t @ u) = started t @ started u"
  by (induction t rule: started.induct) simp_all

lemma delivered_started [simp]: "delivered (started t @ u) = delivered u"
  by (induction t rule: started.induct) simp_all

lemma concat_started:
  "started (concat (map (\<lambda>k. started (f k)) ks) @ u) = concat (map (\<lambda>k. started (f k)) ks) @ started u"
  by (induction ks) simp_all

lemma delivered_concat_started:
  "delivered (concat (map (\<lambda>k. started (f k)) ks) @ u) = delivered u"
  by (induction ks) simp_all

lemma async_series_err:
  "Cb (Inl v) \<in> set (async_series ts acc) \<Longrightarrow> \<exists>t \<in> set ts. Cb (Inl v) \<in> set t"
  by (induction ts arbitrary: acc) (auto dest!: on_callback_pass_err)

lemma async_series_do:
  "Do x \<in> set (async_series ts acc) \<Longrightarrow> \<exists>t \<in> set ts. Do x \<in> set t"
proof (induction ts arbitrary: acc)
  case Nil
  then show ?case by simp
next
  case (Cons t ts)
  from Cons.prems have "Do x \<in> set t \<or> (\<exists>r. Do x \<in> set (async_series ts (acc @ [r])))"
    by (auto dest!: on_callback_mem)
  with Cons.IH show ?case by auto
qed

lemma series_all_ok:
  "(\<forall>t \<in> set ts. \<exists>r. delivered t = Some (Inr r)) \<Longrightarrow>
   \<exists>rs. async_series ts acc = concat (map started ts) @ [Cb (Inr rs)]"
proof (induction ts arbitrary: acc)
  case Nil
  then show ?case by simp
next
  case (Cons t ts)
  then obtain r where r: "delivered t = Some (Inr r)" by auto
  from Cons obtain rs where "async_series ts (acc @ [r]) = concat (map started ts) @ [Cb (Inr rs)]"
    by fastforce
  with r show ?case by (simp add: on_callback_split)
qed

lemma series_first_error:
  "(\<forall>t \<in> set oks. \<exists>r. delivered t = Some (Inr r)) \<Longrightarrow> delivered t = Some (Inl e) \<Longrightarrow>
   async_series (oks @ t # rest) acc = concat (map started (oks @ [t])) @ [Cb (Inl e)]"
proof (induction oks arbitrary: acc)
  case Nil
  then show ?case by (simp add: on_callback_split)
next
  case (Cons a oks)
  then obtain r where r: "delivered a = Some (Inr r)" by auto
  with Cons show ?case by (simp add: on_callback_split)
qed

section \<open>The configuration of an instance\<close>

lemma benign_simps [simp]:
  "benign (Err e)" "benign (rsync_error c)" "benign (scp_error n)"
  by (auto simp: benign_def)

lemma benign_not_timeout: "benign v \<Longrightarrow> v \<noteq> timeout_error"
  by (auto simp: benign_def timeout_error_def rsync_error_def scp_error_def)

lemma copyFolder_err: "Cb (Inl v) \<in> set (copyFolder opts got rsync i src dst) \<Longrightarrow> benign v"
  by (auto simp: copyFolder_def Let_def split: sum.splits if_splits)

lemma kopy_err: "Cb (Inl v) \<in> set (kopy scp cmd res a) \<Longrightarrow> benign v"
proof (induction scp cmd res a rule: kopy.induct)
  case (1 scp cmd res attempts)
  show ?case
  proof (cases "scp (attempts + 1) \<noteq> 0 \<and> \<not> attempts + 1 > 10")
    case True
    with "1.prems" have "Cb (Inl v) \<in> set (kopy scp cmd res (attempts + 1))"
      by (subst (asm) kopy.simps) (simp add: Let_def)
    with True "1.IH" show ?thesis by simp
  next
    case False
    with "1.prems" show ?thesis
      by (subst (asm) kopy.simps) (auto simp: Let_def split: if_splits)
  qed
qed

lemma kopy_mem:
  "x \<in> set (kopy scp cmd res a) \<Longrightarrow>
     x = Do (Exec Scp cmd) \<or> x = Do (Timer 120000) \<or> (\<exists>r. x = Cb r)"
proof (induction scp cmd res a rule: kopy.induct)
  case (1 scp cmd res attempts)
  show ?case
  proof (cases "scp (attempts + 1) \<noteq> 0 \<and> \<not> attempts + 1 > 10")
    case True
    with "1.prems" have "x = Do (Exec Scp cmd) \<or> x = Do (Timer 120000) \<or> x = Cb (Inr res) \<or>
        x \<in> set (kopy scp cmd res (attempts + 1))"
      by (subst (asm) kopy.simps) (simp add: Let_def)
    with True "1.IH" show ?thesis by auto
  next
    case False
    with "1.prems" show ?thesis
      by (subst (asm) kopy.simps) (auto simp: Let_def split: if_splits)
  qed
qed

lemma executeExisting_err: "Cb (Inl v) \<notin> set (executeExistingInstanceScript opts ssh ip p)"
  by (cases ssh) (simp add: executeExisting_cases)

lemma executeInstanceScript_err:
  "Cb (Inl v) \<in> set (executeInstanceScript opts got scp ssh t i script) \<Longrightarrow> benign v"
  by (auto simp: executeInstanceScript_def async_waterfall_def copyInstanceScript_def Let_def
       executeExisting_err
       split: sum.splits dest!: on_callback_pass_err dest: kopy_err)

lemma executeInstanceScript_no_rsync:
  "Do (Exec Rsync c) \<notin> set (executeInstanceScript opts got scp ssh t i script)"
proof
  assume "Do (Exec Rsync c) \<in> set (executeInstanceScript opts got scp ssh t i script)"
  then show False
    by (cases ssh)
      (auto simp: executeInstanceScript_def async_waterfall_def copyInstanceScript_def Let_def
        executeExisting_cases
        split: sum.splits if_splits dest!: on_callback_mem kopy_mem)
qed

lemma executeScripts_err:
  "Cb (Inl v) \<in> set (executeScripts opts env i ss) \<Longrightarrow> benign v"
  by (auto simp: executeScripts_def script_tasks_def split: sum.splits
       dest!: on_callback_pass_err async_series_err dest: executeInstanceScript_err)

lemma executeScripts_no_rsync: "Do (Exec Rsync c) \<notin> set (executeScripts opts env i ss)"
proof
  assume "Do (Exec Rsync c) \<in> set (executeScripts opts env i ss)"
  then show False
    by (auto simp: executeScripts_def script_tasks_def executeInstanceScript_no_rsync
        split: sum.splits dest!: on_callback_mem async_series_do)
qed

lemma runScripts_err: "Cb (Inl v) \<in> set (runScripts opts env req inst) \<Longrightarrow> benign v"
  by (auto simp: runScripts_def split: option.splits if_splits
       dest!: on_callback_pass_err dest: executeScripts_err)

lemma runScripts_no_rsync: "Do (Exec Rsync c) \<notin> set (runScripts opts env req inst)"
proof
  assume "Do (Exec Rsync c) \<in> set (runScripts opts env req inst)"
  then show False
    by (auto simp: runScripts_def executeScripts_no_rsync
        split: option.splits if_splits dest!: on_callback_mem)
qed

lemma configure_err: "Cb (Inl v) \<in> set (configure opts env req inst) \<Longrightarrow> benign v"
  by (auto simp: configure_def folder_tasks_def split: option.splits
       dest!: on_callback_pass_err async_series_err dest: runScripts_err copyFolder_err)

lemma configure_no_timeout: "Cb (Inl timeout_error) \<notin> set (configure opts env req inst)"
  using benign_not_timeout configure_err by blast

lemma folder_tasks_nth:
  "folder_tasks opts env (droplet_id inst) fs = map (folder_sync opts env inst fs) [0..<length fs]"
  by (rule nth_equalityI) (simp_all add: folder_tasks_def folder_sync_def nth_enumerate_eq)

lemma folder_sync_started:
  "started (folder_sync opts env inst fs k) =
     Do (Get (droplet_id inst)) #
     (case folder_got env k of
        Inl err \<Rightarrow> []
      | Inr d \<Rightarrow> [Do (Exec Rsync (rsync_cmd opts (source (fs ! k)) (ip_address d)
                                    (with_slash (destination (fs ! k)))))])"
  by (simp add: folder_sync_def copyFolder_def Let_def split: sum.splits prod.splits)

lemma sample_sync_ok:
  "k < 3 \<Longrightarrow> \<exists>r. delivered (folder_sync sample_options sample_env sample_droplet sample_folders k)
      = Some (Inr r)"
  by (simp add: folder_sync_def copyFolder_def sample_env_def Let_def)

lemma sample_sync_0:
  "delivered (folder_sync sample_options sample_env_lost sample_droplet sample_folders 0)
      = Some (Inr ''sent'')"
  by (simp add: folder_sync_def copyFolder_def sample_env_lost_def sample_env_def Let_def)

lemma sample_sync_1:
  "delivered (folder_sync sample_options sample_env_lost sample_droplet sample_folders 1)
      = Some (Inl (rsync_error (rsync_cmd sample_options ''b'' ''10.0.0.1'' ''/srv/b/'')))"
  by (simp add: folder_sync_def copyFolder_def sample_env_lost_def sample_env_def Let_def
      sample_folders_def with_slash_def sample_droplet_def)

text \<open>
  Claim C6.  Let the request name the folders \<open>fs\<close>.  If every folder's sync succeeds, the
  configuration consists of the syncs' actions, folder by folder in the order of \<open>fs\<close>,
  followed by \<^verbatim>\<open>runScripts\<close>: every sync has called back before the first script action.
  If the \<open>k\<close>-th sync is the first to fail, with error \<open>e\<close>, the configuration consists of
  the actions of the syncs up to and including the \<open>k\<close>-th, followed by \<^verbatim>\<open>finalCb(e)\<close> and
  nothing else: no later folder is synced and no script is run.  The actions of a sync
  contain no scp or ssh command, and \<^verbatim>\<open>runScripts\<close> contains no rsync command.
\<close>

theorem folders_before_scripts:
  "folders req = Some fs \<Longrightarrow>
   (let sync = folder_sync opts env inst fs; n = length fs in
      ((\<forall>k<n. \<exists>r. delivered (sync k) = Some (Inr r)) \<longrightarrow>
         configure opts env req inst =
           concat (map (\<lambda>k. started (sync k)) [0..<n]) @ runScripts opts env req inst) \<and>
      (\<forall>k e. k < n \<and> (\<forall>j<k. \<exists>r. delivered (sync j) = Some (Inr r)) \<and>
             delivered (sync k) = Some (Inl e) \<longrightarrow>
         configure opts env req inst =
           concat (map (\<lambda>j. started (sync j)) [0..<Suc k]) @ [Cb (Inl e)]) \<and>
      (\<forall>k c. Do (Exec Scp c) \<notin> set (started (sync k) :: droplet action list) \<and>
             Do (Exec Ssh c) \<notin> set (started (sync k) :: droplet action list)) \<and>
      (\<forall>c. Do (Exec Rsync c) \<notin> set (runScripts opts env req inst)))"
proof -
  assume fs: "folders req = Some fs"
  define sync where "sync = folder_sync opts env inst fs"
  define n where "n = length fs"
  have tasks: "folder_tasks opts env (droplet_id inst) fs = map sync [0..<n]"
    by (simp add: folder_tasks_nth sync_def n_def)
  have conf: "configure opts env req inst =
      on_callback (async_series (map sync [0..<n]) []) (\<lambda>err. [Cb (Inl err)])
        (\<lambda>result. runScripts opts env req inst)"
    by (simp add: configure_def fs tasks)
  have all_ok: "configure opts env req inst =
      concat (map (\<lambda>k. started (sync k)) [0..<n]) @ runScripts opts env req inst"
    if "\<forall>k<n. \<exists>r. delivered (sync k) = Some (Inr r)"
  proof -
    from that have "\<forall>t \<in> set (map sync [0..<n]). \<exists>r. delivered t = Some (Inr r)" by auto
    from series_all_ok [OF this, of "[]"] obtain rs where
      "async_series (map sync [0..<n]) [] = concat (map (\<lambda>k. started (sync k)) [0..<n]) @ [Cb (Inr rs)]"
      by (auto simp: comp_def)
    then show ?thesis
      by (simp only: conf on_callback_split concat_started delivered_concat_started)
        simp
  qed
  have first_error: "configure opts env req inst =
      concat (map (\<lambda>j. started (sync j)) [0..<Suc k]) @ [Cb (Inl e)]"
    if "k < n" "\<forall>j<k. \<exists>r. delivered (sync j) = Some (Inr r)" "delivered (sync k) = Some (Inl e)"
    for k e
  proof -
    from \<open>k < n\<close> have split: "[0..<n] = [0..<k] @ k # [Suc k..<n]"
      by (metis le_add1 less_imp_add_positive upt_add_eq_append upt_conv_Cons zero_less_Suc add_Suc_right
          less_eq_nat.simps(1) less_iff_Suc_add upt_rec)
    from that have "\<forall>t \<in> set (map sync [0..<k]). \<exists>r. delivered t = Some (Inr r)" by auto
    from series_first_error [OF this that(3), of "map sync [Suc k..<n]" "[]"]
    have "async_series (map sync [0..<n]) [] =
        concat (map (\<lambda>j. started (sync j)) [0..<Suc k]) @ [Cb (Inl e)]"
      by (simp add: split comp_def)
    then show ?thesis
      by (simp only: conf on_callback_split concat_started delivered_concat_started)
        simp
  qed
  have no_script: "Do (Exec Scp c) \<notin> set (started (sync k) :: droplet action list) \<and>
      Do (Exec Ssh c) \<notin> set (started (sync k) :: droplet action list)" for k c
    by (simp add: sync_def folder_sync_started split: sum.splits)
  show ?thesis
    unfolding Let_def sync_def [symmetric] n_def [symmetric]
    using all_ok first_error no_script runScripts_no_rsync by blast
qed

theorem folders_before_scripts_witness:
  "folders sample_request = Some sample_folders \<and>
   delivered (folder_sync sample_options sample_env_lost sample_droplet sample_folders 0)
      = Some (Inr ''sent'') \<and>
   delivered (folder_sync sample_options sample_env_lost sample_droplet sample_folders 1)
      = Some (Inl (rsync_error (rsync_cmd sample_options ''b'' ''10.0.0.1'' ''/srv/b/''))) \<and>
   configure sample_options sample_env_lost sample_request sample_droplet =
     [Do (Get (IdNum 5)), Do (Exec Rsync (rsync_cmd sample_options ''a'' ''10.0.0.1'' ''/srv/a/'')),
      Do (Get (IdNum 5)), Do (Exec Rsync (rsync_cmd sample_options ''b'' ''10.0.0.1'' ''/srv/b/'')),
      Cb (Inl (rsync_error (rsync_cmd sample_options ''b'' ''10.0.0.1'' ''/srv/b/'')))] \<and>
   configure sample_options sample_env sample_request sample_droplet =
     [Do (Get (IdNum 5)), Do (Exec Rsync (rsync_cmd sample_options ''a'' ''10.0.0.1'' ''/srv/a/'')),
      Do (Get (IdNum 5)), Do (Exec Rsync (rsync_cmd sample_options ''b'' ''10.0.0.1'' ''/srv/b/'')),
      Do (Get (IdNum 5)), Do (Exec Rsync (rsync_cmd sample_options ''c'' ''10.0.0.1'' ''/srv/c/''))]
     @ runScripts sample_options sample_env sample_request sample_droplet"
proof -
  have fs: "folders sample_request = Some sample_folders"
    by (simp add: sample_request_def sample_folders_def)
  have before: "\<forall>j<1. \<exists>r. delivered (folder_sync sample_options sample_env_lost sample_droplet
      sample_folders j) = Some (Inr r)"
    by (simp add: sample_sync_0)
  have all: "\<forall>k<length sample_folders. \<exists>r. delivered (folder_sync sample_options sample_env
      sample_droplet sample_folders k) = Some (Inr r)"
    using sample_sync_ok by (simp add: sample_folders_def)
  have len: "(1::nat) < length sample_folders" "length sample_folders = 3"
    by (simp_all add: sample_folders_def)
  from folders_before_scripts [OF fs, where opts = sample_options and env = sample_env_lost
      and inst = sample_droplet] before sample_sync_1 len(1)
  have "configure sample_options sample_env_lost sample_request sample_droplet =
      concat (map (\<lambda>j. started (folder_sync sample_options sample_env_lost sample_droplet
        sample_folders j)) [0..<Suc 1]) @
      [Cb (Inl (rsync_error (rsync_cmd sample_options ''b'' ''10.0.0.1'' ''/srv/b/'')))]"
    unfolding Let_def by blast
  then have lost: "configure sample_options sample_env_lost sample_request sample_droplet =
     [Do (Get (IdNum 5)), Do (Exec Rsync (rsync_cmd sample_options ''a'' ''10.0.0.1'' ''/srv/a/'')),
      Do (Get (IdNum 5)), Do (Exec Rsync (rsync_cmd sample_options ''b'' ''10.0.0.1'' ''/srv/b/'')),
      Cb (Inl (rsync_error (rsync_cmd sample_options ''b'' ''10.0.0.1'' ''/srv/b/'')))]"
    by (simp add: folder_sync_started sample_env_lost_def sample_env_def sample_folders_def
        with_slash_def sample_droplet_def)
  from folders_before_scripts [OF fs, where opts = sample_options and env = sample_env
      and inst = sample_droplet] all
  have "configure sample_options sample_env sample_request sample_droplet =
      concat (map (\<lambda>j. started (folder_sync sample_options sample_env sample_droplet
        sample_folders j)) [0..<length sample_folders]) @
      runScripts sample_options sample_env sample_request sample_droplet"
    unfolding Let_def by blast
  then have ok: "configure sample_options sample_env sample_request sample_droplet =
     [Do (Get (IdNum 5)), Do (Exec Rsync (rsync_cmd sample_options ''a'' ''10.0.0.1'' ''/srv/a/'')),
      Do (Get (IdNum 5)), Do (Exec Rsync (rsync_cmd sample_options ''b'' ''10.0.0.1'' ''/srv/b/'')),
      Do (Get (IdNum 5)), Do (Exec Rsync (rsync_cmd sample_options ''c'' ''10.0.0.1'' ''/srv/c/''))]
     @ runScripts sample_options sample_env sample_request sample_droplet"
    by (simp add: len(2) eval_nat_numeral folder_sync_started sample_env_def sample_folders_def
        with_slash_def sample_droplet_def)
  from fs sample_sync_0 sample_sync_1 lost ok show ?thesis by simp
qed

section \<open>The life cycle of one instance\<close>

lemma cb_timeout:
  "timeout_reported (cb opts env req s r) \<longleftrightarrow>
     timeout_reported s \<or> (\<not> called s \<and> r = Inl timeout_error)"
  by (auto simp: cb_def timeout_reported_def Let_def configure_no_timeout split: sum.splits)

lemma cb_start [simp]: "start (cb opts env req s r) = start s"
  by (simp add: cb_def Let_def split: sum.splits)

lemma Err_not_timeout [simp]: "Err e \<noteq> timeout_error"
  by (simp add: timeout_error_def)

lemma on_poll_timeout:
  "timeout_reported (on_poll opts env req d s now r) \<longleftrightarrow>
     timeout_reported s \<or>
     (\<exists>st. r = Inr st \<and> \<not> called s \<and> st \<noteq> ''done'' \<and>
           getDropletLaunchTimeout \<le> int (unix now) - int (start s))"
proof (cases r)
  case (Inl e)
  then show ?thesis
    by (simp add: on_poll_def cb_timeout) (simp add: timeout_reported_def)
next
  case (Inr st)
  then show ?thesis
    by (simp add: on_poll_def cb_timeout Let_def) (auto simp: timeout_reported_def)
qed

lemma on_poll_start [simp]: "start (on_poll opts env req d s now r) = start s"
  by (simp add: on_poll_def Let_def split: sum.splits)

lemma step_start [simp]: "start (step opts env req s ev) = start s"
  by (simp add: step_def split: option.splits event.splits sum.splits)

lemma run_start [simp]: "start (foldl (step opts env req) s evs) = start s"
  by (induction evs arbitrary: s) simp_all

lemma step_timeout:
  "timeout_reported (step opts env req s ev) \<longleftrightarrow>
     timeout_reported s \<or>
     (\<exists>now st. ev = Polled now (Inr st) \<and> listening s \<and> st \<noteq> ''done'' \<and>
           getDropletLaunchTimeout \<le> int (unix now) - int (start s))"
proof (cases "crashed s")
  case True
  then show ?thesis by (simp add: step_def listening_def)
next
  case False
  note alive = this
  show ?thesis
  proof (cases "created s")
    case None
    with alive show ?thesis
      by (auto simp: step_def listening_def timeout_reported_def split: event.splits sum.splits)
  next
    case (Some d)
    show ?thesis
    proof (cases ev)
      case (Polled now r)
      with alive Some show ?thesis
        by (auto simp: step_def listening_def on_poll_timeout) (auto simp: timeout_reported_def)
    next
      case (Created r)
      with alive Some show ?thesis by (simp add: step_def)
    next
      case Tick
      with alive Some show ?thesis by (simp add: step_def timeout_reported_def)
    next
      case PortUp
      with alive Some show ?thesis by (simp add: step_def timeout_reported_def)
    next
      case (PortFail e)
      with alive Some show ?thesis
        by (simp add: step_def cb_timeout) (simp add: timeout_reported_def)
    next
      case Settled
      with alive Some show ?thesis
        by (simp add: step_def cb_timeout) (simp add: timeout_reported_def)
    qed
  qed
qed

lemma snoc_split:
  "evs @ [e] = pre @ x # post \<longleftrightarrow>
     (post = [] \<and> pre = evs \<and> x = e) \<or> (\<exists>post'. post = post' @ [e] \<and> evs = pre @ x # post')"
  by (cases post rule: rev_cases) auto

lemma run_timeout:
  assumes "\<not> timeout_reported s"
  shows "timeout_reported (foldl (step opts env req) s evs) \<longleftrightarrow>
     (\<exists>pre now st post. evs = pre @ Polled now (Inr st) # post \<and>
        listening (foldl (step opts env req) s pre) \<and> st \<noteq> ''done'' \<and>
        getDropletLaunchTimeout \<le> int (unix now) - int (start s))"
proof (induction evs rule: rev_induct)
  case Nil
  from assms show ?case by simp
next
  case (snoc e evs)
  show ?case
    by (simp add: step_timeout snoc snoc_split) blast
qed

lemma start_not_reported: "\<not> timeout_reported (provision_start opts req t)"
  by (simp add: provision_start_def timeout_reported_def)

lemma quiet_step:
  "created s \<noteq> None \<Longrightarrow> \<not> ticking s \<Longrightarrow> polls s = 0 \<Longrightarrow>
   created (step opts env req s ev) \<noteq> None \<and>
   \<not> ticking (step opts env req s ev) \<and> polls (step opts env req s ev) = 0"
  by (auto simp: step_def cb_def Let_def split: option.splits event.splits sum.splits)

lemma quiet_run:
  "created s \<noteq> None \<Longrightarrow> \<not> ticking s \<Longrightarrow> polls s = 0 \<Longrightarrow>
   polls (foldl (step opts env req) s evs) = 0"
proof (induction evs arbitrary: s)
  case Nil
  then show ?case by simp
next
  case (Cons e evs)
  from quiet_step [OF Cons.prems, of opts env req e] show ?case
    by (simp add: Cons.IH)
qed

lemma quiet_no_timeout:
  assumes "created s \<noteq> None" "\<not> ticking s" "polls s = 0" "\<not> timeout_reported s"
  shows "\<not> timeout_reported (foldl (step opts env req) s evs)"
proof (induction evs rule: rev_induct)
  case Nil
  from assms show ?case by simp
next
  case (snoc e evs)
  from assms quiet_run [of s opts env req evs]
  have "polls (foldl (step opts env req) s evs) = 0" by simp
  with snoc show ?case by (simp add: step_timeout listening_def)
qed

lemma crashed_run: "crashed s \<Longrightarrow> foldl (step opts env req) s evs = s"
  by (induction evs) (simp_all add: step_def)

lemma create_error_run:
  "provision1 opts env req t (Created (Inl e) # evs) =
     (provision_start opts req t)
       \<lparr>crashed := True, out := out (provision_start opts req t) @ [Do (Throw (Err e))]\<rparr>"
proof -
  have "step opts env req (provision_start opts req t) (Created (Inl e)) =
      (provision_start opts req t)
        \<lparr>crashed := True, out := out (provision_start opts req t) @ [Do (Throw (Err e))]\<rparr>"
    by (simp add: step_def provision_start_def)
  then show ?thesis
    by (simp add: provision1_def crashed_run)
qed

lemma two_events:
  "provision1 opts env req t [Created (Inr d), Tick] =
     (provision_start opts req t)
       \<lparr>created := Some d, ticking := True, polls := 1,
        out := out (provision_start opts req t) @ [Do (EventGet (event_id d))]\<rparr>"
  by (simp add: provision1_def step_def provision_start_def)

lemma three_events:
  "provision1 opts env req t [Created (Inr d), Tick, Polled now r] =
     on_poll opts env req d
       ((provision_start opts req t)
          \<lparr>created := Some d, ticking := True, polls := 0,
           out := out (provision_start opts req t) @ [Do (EventGet (event_id d))]\<rparr>) now r"
  by (simp add: provision1_def step_def provision_start_def)

text \<open>
  Claim C4, where the code departs from it.  When \<^verbatim>\<open>dropletNew\<close> answers with an error,
  \<^verbatim>\<open>_provision\<close> has made its one create call, which it does not repeat, and throws the
  error from the callback of that call instead of handing it to \<^verbatim>\<open>cb\<close>, as it does with
  the errors of the poll and of the port probe.  Whatever happens afterwards, the
  caller's callback is never called: the caller receives neither the error nor anything
  else.
\<close>

theorem create_error_thrown:
  "out (provision1 opts env req t (Created (Inl e) # evs)) =
     [Do (New (name req) (size' req) (image' req) (region req) (private_networking req)
            (ssh_key_id opts)),
      Do (Throw (Err e))] \<and>
   delivered (out (provision1 opts env req t (Created (Inl e) # evs))) = None"
  by (simp add: create_error_run provision_start_def)

text \<open>
  Claim C2, as amended.  The caller is handed the creation-timeout error if and only if
  some answer of \<^verbatim>\<open>eventGet\<close> is handled while nothing has yet been passed on, with a status
  other than \<^verbatim>\<open>done\<close>, at a clock reading whose whole seconds are at least 600 more than
  those of the start (\<^verbatim>\<open>tsDiff >= 600\<close>).  No other callback reports it.  In particular,
  when \<^verbatim>\<open>done\<close> is observed and no other poll is outstanding at that moment, the
  creation-timeout error is never reported afterwards, however long the port wait and the
  settle delay take and whatever arrives later.
\<close>

theorem creation_timeout:
  "(timeout_reported (provision1 opts env req t evs) \<longleftrightarrow>
      (\<exists>pre now st post.
          evs = pre @ Polled now (Inr st) # post \<and>
          listening (provision1 opts env req t pre) \<and> st \<noteq> ''done'' \<and>
          600 \<le> int (unix now) - int (unix t))) \<and>
   (\<not> crashed (provision1 opts env req t pre') \<and>
    created (provision1 opts env req t pre') \<noteq> None \<and>
    polls (provision1 opts env req t pre') = 1 \<and>
    \<not> timeout_reported (provision1 opts env req t pre') \<longrightarrow>
    \<not> timeout_reported (provision1 opts env req t (pre' @ Polled now' (Inr ''done'') # post')))"
proof
  show "timeout_reported (provision1 opts env req t evs) \<longleftrightarrow>
      (\<exists>pre now st post.
          evs = pre @ Polled now (Inr st) # post \<and>
          listening (provision1 opts env req t pre) \<and> st \<noteq> ''done'' \<and>
          600 \<le> int (unix now) - int (unix t))"
    unfolding provision1_def
    using run_timeout [OF start_not_reported, of opts env req opts req t evs]
    by (simp add: getDropletLaunchTimeout_def provision_start_def)
next
  define s where "s = provision1 opts env req t pre'"
  define s' where "s' = step opts env req s (Polled now' (Inr ''done''))"
  have run: "provision1 opts env req t (pre' @ Polled now' (Inr ''done'') # post') =
      foldl (step opts env req) s' post'"
    by (simp add: provision1_def s_def s'_def)
  have "\<not> timeout_reported (foldl (step opts env req) s' post')"
    if "\<not> crashed s" "created s \<noteq> None" "polls s = 1" "\<not> timeout_reported s"
  proof (rule quiet_no_timeout)
    from that show "created s' \<noteq> None" "\<not> ticking s'" "polls s' = 0"
      by (auto simp: s'_def step_def on_poll_def)
    from that show "\<not> timeout_reported s'"
      by (simp add: s'_def step_timeout)
  qed
  then show "\<not> crashed (provision1 opts env req t pre') \<and>
    created (provision1 opts env req t pre') \<noteq> None \<and>
    polls (provision1 opts env req t pre') = 1 \<and>
    \<not> timeout_reported (provision1 opts env req t pre') \<longrightarrow>
    \<not> timeout_reported (provision1 opts env req t (pre' @ Polled now' (Inr ''done'') # post'))"
    unfolding run s_def [symmetric] by blast
qed

theorem creation_timeout_witness:
  "\<not> crashed (provision1 sample_options sample_env sample_request 0 [Created (Inr sample_droplet), Tick]) \<and>
   created (provision1 sample_options sample_env sample_request 0 [Created (Inr sample_droplet), Tick]) \<noteq> None \<and>
   polls (provision1 sample_options sample_env sample_request 0 [Created (Inr sample_droplet), Tick]) = 1 \<and>
   \<not> timeout_reported (provision1 sample_options sample_env sample_request 0 [Created (Inr sample_droplet), Tick]) \<and>
   \<not> timeout_reported (provision1 sample_options sample_env sample_request 0
        ([Created (Inr sample_droplet), Tick] @ Polled 16000 (Inr ''done'') #
         [PortUp, Polled 900000 (Inr ''active''), Settled]))"
proof -
  have pre: "\<not> crashed (provision1 sample_options sample_env sample_request 0 [Created (Inr sample_droplet), Tick]) \<and>
   created (provision1 sample_options sample_env sample_request 0 [Created (Inr sample_droplet), Tick]) \<noteq> None \<and>
   polls (provision1 sample_options sample_env sample_request 0 [Created (Inr sample_droplet), Tick]) = 1 \<and>
   \<not> timeout_reported (provision1 sample_options sample_env sample_request 0 [Created (Inr sample_droplet), Tick])"
    by (simp add: two_events provision_start_def timeout_reported_def)
  with creation_timeout [where opts = sample_options and env = sample_env and req = sample_request
      and t = 0 and pre' = "[Created (Inr sample_droplet), Tick]" and now' = 16000
      and post' = "[PortUp, Polled 900000 (Inr ''active''), Settled]"]
  show ?thesis by blast
qed

text \<open>
  Claim C2 as it was stated fails twice.  A call made at 999 ms whose poll is answered at
  600000 ms with a status other than \<^verbatim>\<open>done\<close> reports the timeout although less than 600
  seconds have passed: the whole seconds differ by exactly 600.  And when two polls are
  outstanding, the first answer being \<^verbatim>\<open>done\<close> and the second, handled at 601 seconds,
  another status, the timeout is reported after \<^verbatim>\<open>done\<close> has been observed and the port
  wait has begun.
\<close>

theorem creation_timeout_early_and_after_done:
  "timeout_reported (provision1 sample_options sample_env sample_request 999
      [Created (Inr sample_droplet), Tick, Polled 600000 (Inr ''active'')]) \<and>
   (600000::int) - 999 < 600 * 1000 \<and>
   out (provision1 sample_options sample_env sample_request 0
      [Created (Inr sample_droplet), Tick, Tick, Polled 601000 (Inr ''done''),
       Polled 601000 (Inr ''active'')]) =
     [Do (New ''agent2'' ''66'' ''3101045'' ''4'' True ''7''),
      Do (EventGet (IdNum 9)), Do (EventGet (IdNum 9)),
      Do (PortWait 22 ''10.0.0.1'' 1000 240000),
      Cb (Inl timeout_error)]"
proof -
  have "timeout_reported (provision1 sample_options sample_env sample_request 999
      [Created (Inr sample_droplet), Tick, Polled 600000 (Inr ''active'')])"
    by (simp add: three_events on_poll_def Let_def unix_def getDropletLaunchTimeout_def
        provision_start_def cb_def timeout_reported_def)
  moreover have "out (provision1 sample_options sample_env sample_request 0
      [Created (Inr sample_droplet), Tick, Tick, Polled 601000 (Inr ''done''),
       Polled 601000 (Inr ''active'')]) =
     [Do (New ''agent2'' ''66'' ''3101045'' ''4'' True ''7''),
      Do (EventGet (IdNum 9)), Do (EventGet (IdNum 9)),
      Do (PortWait 22 ''10.0.0.1'' 1000 240000),
      Cb (Inl timeout_error)]"
    by (simp add: provision1_def step_def on_poll_def Let_def unix_def getDropletLaunchTimeout_def
        provision_start_def cb_def sample_request_def sample_options_def sample_droplet_def)
  ultimately show ?thesis by simp
qed

section \<open>Batches of requests\<close>

subsection \<open>A pipeline that throws does not call back\<close>




lemma delivered_mem: "delivered t = Some r \<Longrightarrow> Cb r \<in> set t"
  by (induction t rule: delivered.induct) auto

lemma is_throw_iff: "is_throw a \<longleftrightarrow> (\<exists>e. a = Do (Throw e))"
  by (auto simp: is_throw_def split: action.splits effect.splits)



lemma quiet_ends [simp]:
  "quiet_throw [Cb r]" "quiet_throw [Do (Throw e)]"
  by (simp_all add: quiet_throw_def is_throw_iff)










lemma delivered_snoc_Do [simp]: "delivered (t @ [Do e]) = delivered t"
  by (induction t rule: delivered.induct) simp_all







subsection \<open>\<^verbatim>\<open>async.parallel\<close>\<close>

text \<open>
  The first argument of the final callback and the results array.  The trace of
  \<^verbatim>\<open>async.parallel\<close> used for \<^verbatim>\<open>dropletDestroyExcept\<close> is the same calls with the array
  left out in case of an error.
\<close>

lemma calls_done:
  "list_all (\<lambda>i. res i \<noteq> None) [0..<n] \<Longrightarrow>
   async_parallel_calls n cs res len = [(None, map res [0..<n])]"
  by (simp add: async_parallel_calls.simps [of n cs res len])

lemma calls_ok_step:
  "\<not> list_all (\<lambda>i. res i \<noteq> None) [0..<n] \<Longrightarrow>
   async_parallel_calls n ((i, Inr v) # cs) res len =
     async_parallel_calls n cs (res(i \<mapsto> v)) (max len (Suc i))"
  by (simp add: async_parallel_calls.simps [of n "(i, Inr v) # cs" res len])

lemma calls_err_step:
  "\<not> list_all (\<lambda>i. res i \<noteq> None) [0..<n] \<Longrightarrow>
   async_parallel_calls n ((i, Inl e) # cs) res len =
     [(Some e, map (res(i := None)) [0..<max len (Suc i)])]"
  by (simp add: async_parallel_calls.simps [of n "(i, Inl e) # cs" res len])

lemma parallel_done:
  "list_all (\<lambda>i. res i \<noteq> None) [0..<n] \<Longrightarrow>
   async_parallel n cs res = [Cb (Inr (map (\<lambda>i. the (res i)) [0..<n]))]"
  by (simp add: async_parallel.simps [of n cs res])

lemma parallel_ok_step:
  "\<not> list_all (\<lambda>i. res i \<noteq> None) [0..<n] \<Longrightarrow>
   async_parallel n ((i, Inr v) # cs) res = async_parallel n cs (res(i \<mapsto> v))"
  by (simp add: async_parallel.simps [of n "(i, Inr v) # cs" res])

lemma parallel_err_step:
  "\<not> list_all (\<lambda>i. res i \<noteq> None) [0..<n] \<Longrightarrow>
   async_parallel n ((i, Inl e) # cs) res = [Cb (Inl e)]"
  by (simp add: async_parallel.simps [of n "(i, Inl e) # cs" res])

lemma async_parallel_first_argument:
  "async_parallel n cs res =
     map (\<lambda>(err, results). case err of Some e \<Rightarrow> Cb (Inl e) | None \<Rightarrow> Cb (Inr (map the results)))
       (async_parallel_calls n cs res len)"
proof (induction cs arbitrary: res len)
  case Nil
  show ?case
    by (simp add: async_parallel.simps [of n "[]" res] async_parallel_calls.simps [of n "[]" res len]
        comp_def)
next
  case (Cons c cs)
  obtain i r where c: "c = (i, r)" by (cases c)
  show ?case
  proof (cases "list_all (\<lambda>i. res i \<noteq> None) [0..<n]")
    case True
    then show ?thesis by (simp add: parallel_done calls_done comp_def)
  next
    case False
    then show ?thesis
      by (cases r) (simp_all add: c parallel_ok_step parallel_err_step calls_ok_step calls_err_step
          Cons.IH)
  qed
qed






subsection \<open>Two requests\<close>









section \<open>Destroying all instances but some\<close>

lemma to_double_small: "n < 9007199254740992 \<Longrightarrow> to_double n = n"
  by (simp add: to_double_def)

lemma parseInt10_samples:
  "parseInt10 (IdStr ''3'') = Some 3" "parseInt10 (IdStr ''4'') = Some 4"
  "parseInt10 (IdNum 1) = Some 1" "parseInt10 (IdNum 2) = Some 2" "parseInt10 (IdNum 4) = Some 4"
  by (simp_all add: read_digits_def digit_of_def is_blank_def to_double_small)

lemma sample_bad_ids:
  "bad_ids [IdNum 2, IdStr ''4'']
     [numbered (IdNum 1), numbered (IdNum 2), numbered (IdStr ''3''), numbered (IdNum 4)] =
   [Some 1, Some 3]"
  by (simp add: bad_ids_def not_indexed_def numbered_def parseInt10_samples
      del: parseInt10.simps)

lemma destroy_no_success:
  "Cb (Inr r) \<notin> set (dropletDestroyExcept ids got cs)"
proof
  assume "Cb (Inr r) \<in> set (dropletDestroyExcept ids got cs)"
  then show False
    by (auto simp: dropletDestroyExcept_def Let_def split: sum.splits dest!: on_callback_mem)
qed

text \<open>
  Claim C8, where the code departs from it.  With the instances 1, 2, 3 and 4 and the
  keep-list 2 and 4, \<^verbatim>\<open>dropletDestroyExcept\<close> destroys 1 and 3, as claimed.  When both destroy
  calls have succeeded it calls \<^verbatim>\<open>cb(result)\<close>: the caller receives the array of what the
  destroy calls returned as the first argument, where an error is expected, and no
  success value.  Indeed no keep-list, no set of instances and no course of the destroy
  calls makes a success value reach the caller.
\<close>

theorem destroy_results_in_error_position:
  "dropletDestroyExcept (Many [IdNum 2, IdStr ''4''])
     (Inr [numbered (IdNum 1), numbered (IdNum 2), numbered (IdStr ''3''), numbered (IdNum 4)])
     [(1, Inr (Str ''event 31'')), (0, Inr (Str ''event 30''))] =
   [Do GetAll, Do (Destroy (Some 1)), Do (Destroy (Some 3)),
    Cb (Inl (Arr [Str ''event 30'', Str ''event 31'']))] \<and>
   (\<forall>r. Cb (Inr r) \<notin> set (dropletDestroyExcept ids got cs))"
  by (simp add: destroy_no_success)
    (simp add: dropletDestroyExcept_def sample_bad_ids Let_def async_parallel.simps
      eval_nat_numeral)

end
